theory Spec2Isabelle
  imports Complex_Main
begin

section \<open>Rocket flight simulator: the motor model and the trajectory integrator\<close>

text \<open>
  A shallow embedding of \<^verbatim>\<open>scripts/rocket_simulator.py\<close>.

  Python floats (and numpy's float64) are modelled as real numbers: every arithmetic
  operation is exact. Where a statement depends on the rounding of float64, the
  function is given a second time with each operation rounded (\<open>mass_rounded\<close>).
  What leaves the reals is an error value of the result type:
  a division by zero raises \<^verbatim>\<open>ZeroDivisionError\<close> on Python's own numbers and
  gives \<^verbatim>\<open>inf\<close> or \<^verbatim>\<open>nan\<close> (with a warning) on numpy's; the model has one
  outcome, \<open>ZeroDivision\<close>, for both, since neither is a real number. A run of the
  program that goes on with \<^verbatim>\<open>inf\<close> or \<^verbatim>\<open>nan\<close> never meets the apogee test and
  ends at the safety bound; the model ends it where the number arises.
\<close>

datatype py_error =
    FileNotFoundError
  | ValueError
  | ZeroDivision
  | UnboundLocalError string

subsection \<open>EngineParser: the parsed motor data\<close>

text \<open>Decoded text is a list of Unicode code points.\<close>

type_synonym ustring = "nat list"

record EngineParser =
  name :: ustring
  diameter :: real
  length_mm :: real
  propellant_mass :: real
  total_mass :: real
  time :: "real list"
  thrust_samples :: "real list"

text \<open>The fields as \<^verbatim>\<open>__init__\<close> sets them (\<^verbatim>\<open>length\<close> is \<open>length_mm\<close>,
  \<^verbatim>\<open>thrust\<close> is \<open>thrust_samples\<close>).\<close>

definition EngineParser_init :: EngineParser where
  "EngineParser_init =
     \<lparr>name = [], diameter = 0, length_mm = 0, propellant_mass = 0, total_mass = 0,
      time = [], thrust_samples = []\<rparr>"

subsection \<open>Reading the file: the candidate encodings\<close>

text \<open>
  A file is the list of its bytes (numbers below 256); a path with no file is \<open>None\<close>.
  The codecs belong to Python, not to this program: they are written out here from
  their definitions (ISO 8859-1, Windows-1252, UTF-8 of RFC 3629) so that the reader can
  be run. \<^verbatim>\<open>latin-1\<close> and \<^verbatim>\<open>iso-8859-1\<close> name one codec, and so do
  \<^verbatim>\<open>windows-1252\<close> and \<^verbatim>\<open>cp1252\<close>.
\<close>

datatype encoding = UTF_8 | LATIN_1 | WINDOWS_1252 | ISO_8859_1 | CP1252

definition encodings :: "encoding list" where
  "encodings = [UTF_8, LATIN_1, WINDOWS_1252, ISO_8859_1, CP1252]"

definition cont :: "nat \<Rightarrow> bool" where
  "cont b \<longleftrightarrow> 0x80 \<le> b \<and> b \<le> 0xBF"

fun decode_utf8 :: "nat list \<Rightarrow> ustring option" where
  "decode_utf8 [] = Some []"
| "decode_utf8 (b # bs) =
     (if b < 0x80 then map_option ((#) b) (decode_utf8 bs)
      else if 0xC2 \<le> b \<and> b \<le> 0xDF then
        (case bs of
           c1 # r \<Rightarrow>
             if cont c1
             then map_option ((#) ((b - 0xC0) * 64 + (c1 - 0x80))) (decode_utf8 r)
             else None
         | _ \<Rightarrow> None)
      else if 0xE0 \<le> b \<and> b \<le> 0xEF then
        (case bs of
           c1 # c2 # r \<Rightarrow>
             if cont c1 \<and> cont c2 \<and> (b = 0xE0 \<longrightarrow> 0xA0 \<le> c1) \<and> (b = 0xED \<longrightarrow> c1 \<le> 0x9F)
             then map_option ((#) ((b - 0xE0) * 4096 + (c1 - 0x80) * 64 + (c2 - 0x80)))
                    (decode_utf8 r)
             else None
         | _ \<Rightarrow> None)
      else if 0xF0 \<le> b \<and> b \<le> 0xF4 then
        (case bs of
           c1 # c2 # c3 # r \<Rightarrow>
             if cont c1 \<and> cont c2 \<and> cont c3 \<and> (b = 0xF0 \<longrightarrow> 0x90 \<le> c1) \<and> (b = 0xF4 \<longrightarrow> c1 \<le> 0x8F)
             then map_option
                    ((#) ((b - 0xF0) * 262144 + (c1 - 0x80) * 4096 + (c2 - 0x80) * 64 + (c3 - 0x80)))
                    (decode_utf8 r)
             else None
         | _ \<Rightarrow> None)
      else None)"

text \<open>Windows-1252 differs from ISO 8859-1 on the bytes 0x80 to 0x9F; five of them have
  no character and make the decoding fail.\<close>

definition cp1252_high :: "nat list" where
  "cp1252_high =
     [0x20AC, 0, 0x201A, 0x0192, 0x201E, 0x2026, 0x2020, 0x2021,
      0x02C6, 0x2030, 0x0160, 0x2039, 0x0152, 0, 0x017D, 0,
      0, 0x2018, 0x2019, 0x201C, 0x201D, 0x2022, 0x2013, 0x2014,
      0x02DC, 0x2122, 0x0161, 0x203A, 0x0153, 0, 0x017E, 0x0178]"

definition cp1252_char :: "nat \<Rightarrow> nat option" where
  "cp1252_char b =
     (if 0x80 \<le> b \<and> b \<le> 0x9F then
        (if cp1252_high ! (b - 0x80) = 0 then None else Some (cp1252_high ! (b - 0x80)))
      else Some b)"

fun decode_cp1252 :: "nat list \<Rightarrow> ustring option" where
  "decode_cp1252 [] = Some []"
| "decode_cp1252 (b # bs) =
     (case cp1252_char b of
        None \<Rightarrow> None
      | Some c \<Rightarrow> map_option ((#) c) (decode_cp1252 bs))"

fun decode :: "encoding \<Rightarrow> nat list \<Rightarrow> ustring option" where
  "decode UTF_8 bs = decode_utf8 bs"
| "decode LATIN_1 bs = Some bs"
| "decode WINDOWS_1252 bs = decode_cp1252 bs"
| "decode ISO_8859_1 bs = Some bs"
| "decode CP1252 bs = decode_cp1252 bs"

text \<open>
  \<^verbatim>\<open>f.readlines()\<close> of a file opened in text mode: a line ends after a line feed, a
  carriage return or the pair of them, each read as one line feed (10); the last line
  may have no terminator.
\<close>

fun readlines :: "ustring \<Rightarrow> ustring \<Rightarrow> ustring list" where
  "readlines cur [] = (if cur = [] then [] else [cur])"
| "readlines cur (c # cs) =
     (if c = 10 then (cur @ [10]) # readlines [] cs
      else if c = 13 then
        (case cs of
           d # ds \<Rightarrow> if d = 10 then (cur @ [10]) # readlines [] ds
                     else (cur @ [10]) # readlines [] cs
         | [] \<Rightarrow> [cur @ [10]])
      else readlines (cur @ [c]) cs)"

text \<open>
  \<^verbatim>\<open>
  for encoding in encodings:
      try:
          with open(self.filepath, 'r', encoding=encoding) as f:
              lines = f.readlines()
      except (UnicodeDecodeError, UnicodeError):
          continue  # prova il prossimo encoding
  \<close>
  \<^verbatim>\<open>open\<close> raises \<^verbatim>\<open>FileNotFoundError\<close>, which the handler does not catch. After
  a successful read the body ends and the loop goes on with the next encoding. The
  third argument is the variable \<^verbatim>\<open>lines\<close>, \<open>None\<close> while it is unbound.
\<close>

fun read_loop ::
  "nat list option \<Rightarrow> encoding list \<Rightarrow> ustring list option \<Rightarrow> py_error + ustring list option" where
  "read_loop file [] lines = Inr lines"
| "read_loop file (encoding # rest) lines =
     (case file of
        None \<Rightarrow> Inl FileNotFoundError
      | Some bs \<Rightarrow>
          (case decode encoding bs of
             None \<Rightarrow> read_loop file rest lines
           | Some txt \<Rightarrow> read_loop file rest (Some (readlines [] txt))))"

subsection \<open>Parsing the lines\<close>

text \<open>The characters that \<^verbatim>\<open>str.strip()\<close> and \<^verbatim>\<open>str.split()\<close> take as white space
  (those of \<^verbatim>\<open>str.isspace\<close>).\<close>

definition isspace :: "nat \<Rightarrow> bool" where
  "isspace c \<longleftrightarrow>
     (9 \<le> c \<and> c \<le> 13) \<or> (28 \<le> c \<and> c \<le> 32) \<or> c = 0x85 \<or> c = 0xA0 \<or> c = 0x1680 \<or>
     (0x2000 \<le> c \<and> c \<le> 0x200A) \<or> c = 0x2028 \<or> c = 0x2029 \<or> c = 0x202F \<or>
     c = 0x205F \<or> c = 0x3000"

definition strip :: "ustring \<Rightarrow> ustring" where
  "strip s = rev (dropWhile isspace (rev (dropWhile isspace s)))"

fun split_from :: "ustring \<Rightarrow> ustring \<Rightarrow> ustring list" where
  "split_from cur [] = (if cur = [] then [] else [cur])"
| "split_from cur (c # cs) =
     (if isspace c then (if cur = [] then split_from [] cs else cur # split_from [] cs)
      else split_from (cur @ [c]) cs)"

definition split :: "ustring \<Rightarrow> ustring list" where
  "split s = split_from [] s"

text \<open>\<^verbatim>\<open>not line or line.startswith(';')\<close>, on the stripped line.\<close>

definition skipped :: "ustring \<Rightarrow> bool" where
  "skipped line \<longleftrightarrow> line = [] \<or> hd line = 59"

text \<open>
  The builtin \<^verbatim>\<open>float\<close> is a parameter \<open>pyfloat\<close> of the parser: \<open>None\<close> is its
  \<^verbatim>\<open>ValueError\<close>.
  \<^verbatim>\<open>
  data_start = 0
  for i, line in enumerate(lines):
      line = line.strip()
      if not line or line.startswith(';'):
          continue
      parts = line.split()
      if len(parts) >= 6:
          self.name = parts[0]
          self.diameter = float(parts[1])
          self.length = float(parts[2])
          self.propellant_mass = float(parts[4])
          self.total_mass = float(parts[5])
          data_start = i + 1
          break
  \<close>
  A line with fewer than six fields changes nothing and the loop goes on; the loop can
  end without having found a line. The result is the parser and \<^verbatim>\<open>data_start\<close>.
\<close>

fun spec_loop ::
  "(ustring \<Rightarrow> real option) \<Rightarrow> EngineParser \<Rightarrow> nat \<Rightarrow> ustring list \<Rightarrow> py_error + EngineParser \<times> nat" where
  "spec_loop pyfloat e i [] = Inr (e, 0)"
| "spec_loop pyfloat e i (line # rest) =
     (let line' = strip line in
      if skipped line' then spec_loop pyfloat e (i + 1) rest
      else
        let parts = split line' in
        if length parts \<ge> 6 then
          (case pyfloat (parts ! 1) of None \<Rightarrow> Inl ValueError | Some d \<Rightarrow>
           case pyfloat (parts ! 2) of None \<Rightarrow> Inl ValueError | Some l \<Rightarrow>
           case pyfloat (parts ! 4) of None \<Rightarrow> Inl ValueError | Some pm \<Rightarrow>
           case pyfloat (parts ! 5) of None \<Rightarrow> Inl ValueError | Some tm \<Rightarrow>
             Inr (e\<lparr>name := parts ! 0, diameter := d, length_mm := l,
                     propellant_mass := pm, total_mass := tm\<rparr>, i + 1))
        else spec_loop pyfloat e (i + 1) rest)"

text \<open>
  \<^verbatim>\<open>
  for line in lines[data_start:]:
      line = line.strip()
      if not line or line.startswith(';'):
          continue
      parts = line.split()
      if len(parts) >= 2:
          try:
              time = float(parts[0])
              thrust = float(parts[1])
              self.time.append(time)
              self.thrust.append(thrust)
          except ValueError:
              continue
  \<close>
\<close>

fun data_loop :: "(ustring \<Rightarrow> real option) \<Rightarrow> EngineParser \<Rightarrow> ustring list \<Rightarrow> EngineParser" where
  "data_loop pyfloat e [] = e"
| "data_loop pyfloat e (line # rest) =
     (let line' = strip line in
      if skipped line' then data_loop pyfloat e rest
      else
        let parts = split line' in
        if length parts \<ge> 2 then
          (case pyfloat (parts ! 0) of
             None \<Rightarrow> data_loop pyfloat e rest
           | Some time' \<Rightarrow>
               (case pyfloat (parts ! 1) of
                  None \<Rightarrow> data_loop pyfloat e rest
                | Some thrust' \<Rightarrow>
                    data_loop pyfloat
                      (e\<lparr>time := time e @ [time'],
                         thrust_samples := thrust_samples e @ [thrust']\<rparr>) rest))
        else data_loop pyfloat e rest)"

text \<open>The part of \<^verbatim>\<open>parse\<close> after the reading loop.\<close>

definition parse_lines :: "(ustring \<Rightarrow> real option) \<Rightarrow> ustring list \<Rightarrow> py_error + EngineParser" where
  "parse_lines pyfloat lines =
     (case spec_loop pyfloat EngineParser_init 0 lines of
        Inl err \<Rightarrow> Inl err
      | Inr (e, data_start) \<Rightarrow> Inr (data_loop pyfloat e (drop data_start lines)))"

text \<open>\<^verbatim>\<open>EngineParser(filepath).parse()\<close>: the file at the path is the second argument.\<close>

definition parse :: "(ustring \<Rightarrow> real option) \<Rightarrow> nat list option \<Rightarrow> py_error + EngineParser" where
  "parse pyfloat file =
     (case read_loop file encodings None of
        Inl err \<Rightarrow> Inl err
      | Inr None \<Rightarrow> Inl (UnboundLocalError ''lines'')
      | Inr (Some lines) \<Rightarrow> parse_lines pyfloat lines)"

text \<open>
  The entry point loads the engine inside
  \<^verbatim>\<open>try: ... except FileNotFoundError: ... exit(1) except Exception as e: ... exit(1)\<close>:
  each error of the parser ends the program with a message and status 1.
\<close>

datatype load_outcome =
    Loaded EngineParser
  | Exit_file_not_found
  | Exit_parse_error py_error

definition load_engine :: "(ustring \<Rightarrow> real option) \<Rightarrow> nat list option \<Rightarrow> load_outcome" where
  "load_engine pyfloat file =
     (case parse pyfloat file of
        Inr engine \<Rightarrow> Loaded engine
      | Inl FileNotFoundError \<Rightarrow> Exit_file_not_found
      | Inl err \<Rightarrow> Exit_parse_error err)"

text \<open>
  An instance of \<open>pyfloat\<close> to run the parser with: the builtin \<^verbatim>\<open>float\<close> on plain
  decimal literals, an optional sign, digits and an optional fraction. (The builtin
  reads more: exponents, underscores, \<^verbatim>\<open>inf\<close>, \<^verbatim>\<open>nan\<close>.)
\<close>

definition isdigit :: "nat \<Rightarrow> bool" where
  "isdigit c \<longleftrightarrow> 48 \<le> c \<and> c \<le> 57"

definition digits_value :: "ustring \<Rightarrow> nat" where
  "digits_value ds = foldl (\<lambda>acc c. 10 * acc + (c - 48)) 0 ds"

definition unsigned_decimal :: "ustring \<Rightarrow> real option" where
  "unsigned_decimal s =
     (let ip = takeWhile isdigit s; rest = dropWhile isdigit s in
      case rest of
        [] \<Rightarrow> if ip = [] then None else Some (real (digits_value ip))
      | c # fp \<Rightarrow>
          if c = 46 \<and> list_all isdigit fp \<and> (ip \<noteq> [] \<or> fp \<noteq> [])
          then Some (real (digits_value ip) + real (digits_value fp) / 10 ^ length fp)
          else None)"

definition float_decimal :: "ustring \<Rightarrow> real option" where
  "float_decimal s =
     (case s of
        [] \<Rightarrow> None
      | c # r \<Rightarrow>
          if c = 45 then map_option uminus (unsigned_decimal r)
          else if c = 43 then unsigned_decimal r
          else unsigned_decimal s)"

text \<open>\<^verbatim>\<open>return self.time[-1] if len(self.time) > 0 else 0\<close>\<close>

definition get_burn_time :: "EngineParser \<Rightarrow> real" where
  "get_burn_time e = (if length (time e) > 0 then last (time e) else 0)"

text \<open>
  \<^verbatim>\<open>np.trapezoid(y, x)\<close>: the sum over consecutive samples of
  \<open>(x\<^sub>i\<^sub>+\<^sub>1 - x\<^sub>i) * (y\<^sub>i + y\<^sub>i\<^sub>+\<^sub>1) / 2\<close>. The two arrays of the parser always have
  the same length (they are appended to together).
\<close>

fun trapezoid :: "real list \<Rightarrow> real list \<Rightarrow> real" where
  "trapezoid (y0 # y1 # ys) (x0 # x1 # xs) =
     (x1 - x0) * (y0 + y1) / 2 + trapezoid (y1 # ys) (x1 # xs)"
| "trapezoid ys xs = 0"

text \<open>
  \<^verbatim>\<open>
  if len(self.time) < 2:
      return 0
  total_impulse = np.trapezoid(self.thrust, self.time)
  return total_impulse / self.get_burn_time()
  \<close>
  Past the guard the list has a last element, a numpy float64, and so is the integral:
  with a burn time of 0 the quotient is \<^verbatim>\<open>inf\<close> or \<^verbatim>\<open>nan\<close>.
\<close>

definition get_average_thrust :: "EngineParser \<Rightarrow> py_error + real" where
  "get_average_thrust e =
     (if length (time e) < 2 then Inr 0
      else let total_impulse = trapezoid (thrust_samples e) (time e) in
        if get_burn_time e = 0 then Inl ZeroDivision
        else Inr (total_impulse / get_burn_time e))"

text \<open>
  \<^verbatim>\<open>interp1d(x, y, kind='linear', bounds_error=False, fill_value=0)\<close> of scipy.
  The constructor sorts the samples by \<open>x\<close> (a stable sort; \<^verbatim>\<open>assume_sorted\<close> is
  False). A call at \<open>t\<close> evaluates \<^verbatim>\<open>np.interp(t, x, y)\<close> and then puts the fill
  value 0 where \<open>t\<close> is below the first or above the last abscissa. The program
  builds the interpolator from two samples or more.

  \<^verbatim>\<open>np.interp\<close> searches the sorted abscissae for the index \<open>j\<close> with
  \<open>x\<^sub>j \<le> t < x\<^sub>j\<^sub>+\<^sub>1\<close>, the number of abscissae up to \<open>t\<close> less one. It returns
  \<open>y\<^sub>j\<close> when \<open>j\<close> is the last index or \<open>x\<^sub>j = t\<close>, and otherwise
  \<^verbatim>\<open>slope * (t - x[j]) + y[j]\<close> with \<^verbatim>\<open>slope = (y[j+1] - y[j]) / (x[j+1] - x[j])\<close>,
  where the two abscissae differ.
\<close>

definition interval_index :: "real list \<Rightarrow> real \<Rightarrow> nat" where
  "interval_index xp t = length (takeWhile (\<lambda>x. x \<le> t) xp) - 1"

definition np_interp :: "real list \<Rightarrow> real list \<Rightarrow> real \<Rightarrow> real" where
  "np_interp xp fp t =
     (let j = interval_index xp t
      in if j = length xp - 1 then fp ! j
         else if xp ! j = t then fp ! j
         else (fp ! Suc j - fp ! j) / (xp ! Suc j - xp ! j) * (t - xp ! j) + fp ! j)"

definition interp1d :: "real list \<Rightarrow> real list \<Rightarrow> real \<Rightarrow> real" where
  "interp1d x y t =
     (let ps = sort_key fst (zip x y);
          xs = map fst ps;
          ys = map snd ps
      in if t < hd xs \<or> t > last xs then 0 else np_interp xs ys t)"

text \<open>
  \<^verbatim>\<open>
  if len(self.time) < 2:
      return lambda t: 0
  return interp1d(self.time, self.thrust, kind='linear', bounds_error=False, fill_value=0)
  \<close>
\<close>

definition get_thrust_interpolator :: "EngineParser \<Rightarrow> real \<Rightarrow> real" where
  "get_thrust_interpolator e =
     (if length (time e) < 2 then (\<lambda>t. 0)
      else interp1d (time e) (thrust_samples e))"

subsection \<open>RocketSimulator\<close>

text \<open>
  \<^verbatim>\<open>engine_mode\<close> is \<^verbatim>\<open>'curve'\<close>, with the attribute \<^verbatim>\<open>thrust_func\<close>, or
  \<^verbatim>\<open>'constant'\<close>, with the attribute \<^verbatim>\<open>thrust_value\<close>: the tag carries the
  attribute that exists in that mode.
\<close>

datatype engine_mode =
    Curve "real \<Rightarrow> real"
  | Constant real

record RocketSimulator =
  sim_diameter :: real
  cd :: real
  area :: real
  g :: real
  rho :: real
  engine_mode :: engine_mode
  burn_time :: real
  mp :: real
  m0 :: real
  mf :: real
  engine_name :: ustring
  avg_thrust :: "py_error + real"

text \<open>The two ways of calling the constructor: with an engine, or with the manual
  scalars \<^verbatim>\<open>thrust\<close>, \<^verbatim>\<open>burn_time\<close>, \<^verbatim>\<open>propellant_mass\<close>.\<close>

datatype motor_args =
    Engine EngineParser
  | Manual real real real

fun RocketSimulator_init :: "real \<Rightarrow> real \<Rightarrow> real \<Rightarrow> motor_args \<Rightarrow> RocketSimulator" where
  "RocketSimulator_init total_mass' diameter' cd' (Engine engine) =
     \<lparr>sim_diameter = diameter', cd = cd', area = pi * (diameter' / 2) ^ 2,
      g = 9.81, rho = 1.225,
      engine_mode = Curve (get_thrust_interpolator engine),
      burn_time = get_burn_time engine,
      mp = propellant_mass engine,
      m0 = total_mass',
      mf = total_mass' - propellant_mass engine,
      engine_name = name engine,
      avg_thrust = get_average_thrust engine\<rparr>"
| "RocketSimulator_init total_mass' diameter' cd' (Manual thrust' burn_time' propellant_mass') =
     \<lparr>sim_diameter = diameter', cd = cd', area = pi * (diameter' / 2) ^ 2,
      g = 9.81, rho = 1.225,
      engine_mode = Constant thrust',
      burn_time = burn_time',
      mp = propellant_mass',
      m0 = total_mass',
      mf = total_mass' - propellant_mass',
      engine_name = map of_char ''Custom'',
      avg_thrust = Inr thrust'\<rparr>"

text \<open>
  \<^verbatim>\<open>
  def thrust(self, t):
      if t > self.burn_time:
          return 0
      if self.engine_mode == 'curve':
          return self.thrust_func(t)
      else:
          return self.thrust_value
  \<close>
\<close>

definition thrust :: "RocketSimulator \<Rightarrow> real \<Rightarrow> real" where
  "thrust S t =
     (if t > burn_time S then 0
      else case engine_mode S of
             Curve thrust_func \<Rightarrow> thrust_func t
           | Constant thrust_value \<Rightarrow> thrust_value)"

text \<open>
  \<^verbatim>\<open>
  rho_alt = self.rho * np.exp(-altitude / 8500)
  return 0.5 * rho_alt * velocity**2 * self.cd * self.area
  \<close>
\<close>

definition drag_force :: "RocketSimulator \<Rightarrow> real \<Rightarrow> real \<Rightarrow> real" where
  "drag_force S velocity altitude =
     (let rho_alt = rho S * exp (- altitude / 8500)
      in 0.5 * rho_alt * velocity ^ 2 * cd S * area S)"

text \<open>
  \<^verbatim>\<open>
  def mass(self, t):
      if t <= self.burn_time:
          return self.m0 - (self.mp / self.burn_time) * t
      else:
          return self.mf
  \<close>
  There is no test of \<^verbatim>\<open>burn_time\<close> before the division.
\<close>

definition mass :: "RocketSimulator \<Rightarrow> real \<Rightarrow> py_error + real" where
  "mass S t =
     (if t \<le> burn_time S then
        (if burn_time S = 0 then Inl ZeroDivision
         else Inr (m0 S - (mp S / burn_time S) * t))
      else Inr (mf S))"

subsection \<open>The mass in float64 arithmetic\<close>

text \<open>
  In \<open>mass\<close> the numbers are reals. In the program they are float64: each of the
  operations \<^verbatim>\<open>/\<close>, \<^verbatim>\<open>*\<close> and \<^verbatim>\<open>-\<close> gives the float64 nearest to the exact
  result. \<open>mass_rounded\<close> is the same method with the result of each operation passed
  through a rounding function \<open>rnd\<close>; with the identity for \<open>rnd\<close> it is \<open>mass\<close>.
\<close>

definition mass_rounded :: "(real \<Rightarrow> real) \<Rightarrow> RocketSimulator \<Rightarrow> real \<Rightarrow> py_error + real" where
  "mass_rounded rnd S t =
     (if t \<le> burn_time S then
        (if burn_time S = 0 then Inl ZeroDivision
         else Inr (rnd (m0 S - rnd (rnd (mp S / burn_time S) * t))))
      else Inr (mf S))"







subsection \<open>simulate: the stepping loop\<close>

text \<open>
  The local variables of \<^verbatim>\<open>simulate\<close>. \<^verbatim>\<open>apogee\<close> and \<^verbatim>\<open>time_to_apogee\<close>
  are assigned in one branch of the loop only: \<open>None\<close> is the unbound variable.
\<close>

record sim_state =
  st_t :: real
  st_h :: real
  st_v :: real
  st_times :: "real list"
  st_heights :: "real list"
  st_velocities :: "real list"
  st_thrusts :: "real list"
  v_at_2m :: "real option"
  t_at_2m :: "real option"
  apogee :: "real option"
  time_to_apogee :: "real option"

text \<open>
  One pass through the body of \<^verbatim>\<open>while True\<close>, up to and including the capture of
  the 2 m event:
  \<^verbatim>\<open>
  m = self.mass(t)
  thrust_force = self.thrust(t)
  weight = m * self.g
  drag = self.drag_force(v, h) if v > 0 else 0
  a = (thrust_force - weight - drag) / m
  v += a * dt
  h += v * dt
  t += dt
  times.append(t); heights.append(h); velocities.append(v); thrusts.append(thrust_force)
  if v_at_2m is None and h >= 2.0:
      v_at_2m = v
      t_at_2m = t
  \<close>
\<close>

definition step :: "RocketSimulator \<Rightarrow> real \<Rightarrow> sim_state \<Rightarrow> py_error + sim_state" where
  "step S dt s =
     (case mass S (st_t s) of
        Inl e \<Rightarrow> Inl e
      | Inr m \<Rightarrow>
          let thrust_force = thrust S (st_t s);
              weight = m * g S;
              drag = (if st_v s > 0 then drag_force S (st_v s) (st_h s) else 0)
          in if m = 0 then Inl ZeroDivision
             else
               let a = (thrust_force - weight - drag) / m;
                   v = st_v s + a * dt;
                   h = st_h s + v * dt;
                   t = st_t s + dt;
                   s1 = s\<lparr>st_t := t, st_h := h, st_v := v,
                          st_times := st_times s @ [t],
                          st_heights := st_heights s @ [h],
                          st_velocities := st_velocities s @ [v],
                          st_thrusts := st_thrusts s @ [thrust_force]\<rparr>
               in Inr (if v_at_2m s1 = None \<and> h \<ge> 2.0
                       then s1\<lparr>v_at_2m := Some v, t_at_2m := Some t\<rparr>
                       else s1))"

text \<open>The two ways out of the loop, named as the specification names them.\<close>

datatype terminal = APOGEE_REACHED | ABORTED

text \<open>
  The loop \<^verbatim>\<open>while True\<close> has no bound of its own: the model counts the passes it
  may still make, and \<open>None\<close> is a loop that has not left after that many.
  \<^verbatim>\<open>
  if v <= 0 and h > 0:
      apogee = h
      time_to_apogee = t
      break
  if t > 300 or h < -10:
      break
  \<close>
\<close>

fun ascent_loop ::
  "nat \<Rightarrow> RocketSimulator \<Rightarrow> real \<Rightarrow> sim_state \<Rightarrow> (py_error + terminal \<times> sim_state) option" where
  "ascent_loop 0 S dt s = None"
| "ascent_loop (Suc n) S dt s =
     (case step S dt s of
        Inl e \<Rightarrow> Some (Inl e)
      | Inr s' \<Rightarrow>
          if st_v s' \<le> 0 \<and> st_h s' > 0 then
            Some (Inr (APOGEE_REACHED,
                       s'\<lparr>apogee := Some (st_h s'), time_to_apogee := Some (st_t s')\<rparr>))
          else if st_t s' > 300 \<or> st_h s' < -10 then Some (Inr (ABORTED, s'))
          else ascent_loop n S dt s')"

text \<open>The dictionary that \<^verbatim>\<open>simulate\<close> returns, with its keys.\<close>

record results =
  apogeo :: real
  tempo_apogeo :: real
  velocita_2m :: real
  tempo_2m :: real
  times :: "real list"
  heights :: "real list"
  velocities :: "real list"
  thrusts :: "real list"

text \<open>
  The \<^verbatim>\<open>return\<close> statement reads \<^verbatim>\<open>apogee\<close> and \<^verbatim>\<open>time_to_apogee\<close>, in this
  order; reading an unbound local variable raises \<^verbatim>\<open>UnboundLocalError\<close>.
  \<^verbatim>\<open>v_at_2m if v_at_2m else 0\<close> is 0 for \<^verbatim>\<open>None\<close> and for a zero value.
\<close>

definition truthy_or_0 :: "real option \<Rightarrow> real" where
  "truthy_or_0 x = (case x of None \<Rightarrow> 0 | Some r \<Rightarrow> if r \<noteq> 0 then r else 0)"

definition return_results :: "sim_state \<Rightarrow> py_error + results" where
  "return_results s =
     (case apogee s of
        None \<Rightarrow> Inl (UnboundLocalError ''apogee'')
      | Some ap \<Rightarrow>
          (case time_to_apogee s of
             None \<Rightarrow> Inl (UnboundLocalError ''time_to_apogee'')
           | Some ta \<Rightarrow>
               Inr \<lparr>apogeo = ap, tempo_apogeo = ta,
                    velocita_2m = truthy_or_0 (v_at_2m s),
                    tempo_2m = truthy_or_0 (t_at_2m s),
                    times = st_times s, heights = st_heights s,
                    velocities = st_velocities s, thrusts = st_thrusts s\<rparr>))"

text \<open>The state before the loop: \<^verbatim>\<open>t = h = v = 0\<close>, one entry in each series.\<close>

definition initial_state :: "real \<Rightarrow> sim_state" where
  "initial_state thrust0 =
     \<lparr>st_t = 0, st_h = 0, st_v = 0,
      st_times = [0], st_heights = [0], st_velocities = [0], st_thrusts = [thrust0],
      v_at_2m = None, t_at_2m = None, apogee = None, time_to_apogee = None\<rparr>"

definition simulate :: "nat \<Rightarrow> RocketSimulator \<Rightarrow> real \<Rightarrow> (py_error + results) option" where
  "simulate fuel S dt =
     (case ascent_loop fuel S dt (initial_state (thrust S 0)) of
        None \<Rightarrow> None
      | Some (Inl e) \<Rightarrow> Some (Inl e)
      | Some (Inr (exit, s)) \<Rightarrow> Some (return_results s))"

subsection \<open>Auxiliary definitions for the statements\<close>

text \<open>Text written in ASCII, as code points.\<close>

definition ustr :: "string \<Rightarrow> ustring" where
  "ustr s = map of_char s"

text \<open>A line that the first loop of \<^verbatim>\<open>parse\<close> takes as the specification line: it is
  not skipped and has at least six fields.\<close>

definition spec_candidate :: "ustring \<Rightarrow> bool" where
  "spec_candidate line \<longleftrightarrow> \<not> skipped (strip line) \<and> length (split (strip line)) \<ge> 6"

text \<open>The trapezoidal integral of the samples, as the sum over the intervals.\<close>

definition trapezoid_sum :: "real list \<Rightarrow> real list \<Rightarrow> real" where
  "trapezoid_sum ys xs =
     (\<Sum>i < length xs - 1. (xs ! Suc i - xs ! i) * (ys ! i + ys ! Suc i) / 2)"

text \<open>What the four series of a run have in common after any number of passes.\<close>

definition series_ok :: "real \<Rightarrow> real \<Rightarrow> sim_state \<Rightarrow> bool" where
  "series_ok dt thrust0 s \<longleftrightarrow>
     length (st_heights s) = length (st_times s) \<and>
     length (st_velocities s) = length (st_times s) \<and>
     length (st_thrusts s) = length (st_times s) \<and>
     st_times s \<noteq> [] \<and>
     last (st_times s) = st_t s \<and>
     hd (st_times s) = 0 \<and> hd (st_heights s) = 0 \<and> hd (st_velocities s) = 0 \<and>
     hd (st_thrusts s) = thrust0 \<and>
     (\<forall>i. Suc i < length (st_times s) \<longrightarrow> st_times s ! Suc i = st_times s ! i + dt)"

text \<open>The test of the safety bound has not fired at time \<open>t\<close> and height \<open>h\<close>.\<close>

definition below_bound :: "real \<Rightarrow> real \<Rightarrow> bool" where
  "below_bound t h \<longleftrightarrow> \<not> (t > 300 \<or> h < -10)"

text \<open>A state of a run that has never risen: the rocket is on or below the ground and
  does not climb, the safety bound has fired at none of the recorded entries, and the
  series end with the current time and height.\<close>

definition on_ground :: "sim_state \<Rightarrow> bool" where
  "on_ground s \<longleftrightarrow>
     0 \<le> st_t s \<and> st_t s \<le> 300 \<and> st_v s \<le> 0 \<and> st_h s \<le> 0 \<and> apogee s = None \<and>
     length (st_heights s) = length (st_times s) \<and> st_times s \<noteq> [] \<and>
     last (st_times s) = st_t s \<and> last (st_heights s) = st_h s \<and>
     (\<forall>h \<in> set (st_heights s). h \<le> 0) \<and>
     (\<forall>i < length (st_times s). below_bound (st_times s ! i) (st_heights s ! i))"

subsection \<open>Sample inputs\<close>

text \<open>The motor of the specification's scenario: the line
  \<^verbatim>\<open>F35 29 95 0-4-6-8 0.090 0.118 TSP\<close> and the samples (0, 0) and (1, 50).\<close>

definition ramp_engine :: EngineParser where
  "ramp_engine =
     \<lparr>name = ustr ''F35'', diameter = 29, length_mm = 95,
      propellant_mass = 0.090, total_mass = 0.118,
      time = [0, 1], thrust_samples = [0, 50]\<rparr>"

text \<open>Two samples at the same time 0, as the data lines \<^verbatim>\<open>0 5\<close> and \<^verbatim>\<open>0 7\<close> give.\<close>

definition stalled_engine :: EngineParser where
  "stalled_engine = EngineParser_init\<lparr>time := [0, 0], thrust_samples := [5, 7]\<rparr>"

text \<open>A motor that never pushes, on a rocket of 1 kg.\<close>

definition grounded_rocket :: RocketSimulator where
  "grounded_rocket = RocketSimulator_init 1 0.06 0.9 (Manual 0 1 0.13)"

text \<open>A rocket that is all propellant: its final mass is 0.\<close>

definition hollow_rocket :: RocketSimulator where
  "hollow_rocket = RocketSimulator_init 1 0.06 0.9 (Manual 0 1 1)"


text \<open>A rocket without drag (\<open>cd = 0\<close>) whose motor pushes with 15 N for half a second.\<close>

definition coasting_rocket :: RocketSimulator where
  "coasting_rocket = RocketSimulator_init 1 0.06 0 (Manual 15 0.5 0)"

text \<open>The result of its run with a step of 1 s.\<close>

definition coasting_results :: results where
  "coasting_results =
     \<lparr>apogeo = 0.57, tempo_apogeo = 2, velocita_2m = 5.19, tempo_2m = 1,
      times = [0, 1, 2], heights = [0, 5.19, 0.57],
      velocities = [0, 5.19, -4.62], thrusts = [15, 15, 0]\<rparr>"

text \<open>The file \<^verbatim>\<open>;\<close> \<^verbatim>\<open>e-acute\<close> \<^verbatim>\<open>newline\<close> in UTF-8: a comment line with one accented
  letter, the bytes 3B C3 A9 0A.\<close>

definition accented_file :: "nat list" where
  "accented_file = [0x3B, 0xC3, 0xA9, 0x0A]"

text \<open>A file with two data lines and no specification line.\<close>

definition samples_only_file :: "nat list" where
  "samples_only_file = ustr ''0.0 0.0'' @ [10] @ ustr ''1.0 50.0'' @ [10]"

text \<open>A file whose specification line has a diameter that is not a number.\<close>

definition bad_spec_file :: "nat list" where
  "bad_spec_file = ustr ''F35 x 95 0-4-6-8 0.090 0.118 TSP'' @ [10] @ ustr ''0.0 0.0'' @ [10]"

section \<open>The parser\<close>

subsection \<open>Which decoding is used\<close>

text \<open>ISO 8859-1 decodes every file, so the variable \<^verbatim>\<open>lines\<close> is bound after the loop; the
  last assignment to it is the one of \<^verbatim>\<open>cp1252\<close> when that codec decodes the file, and
  the one of \<^verbatim>\<open>iso-8859-1\<close> otherwise.\<close>

lemma read_loop_last:
  "read_loop (Some bs) encodings None =
     Inr (Some (readlines [] (case decode_cp1252 bs of Some txt \<Rightarrow> txt | None \<Rightarrow> bs)))"
  by (simp add: encodings_def split: option.splits)

text \<open>
  Claim C2. The claim asks that the lines used for parsing be those of the first
  encoding that decodes the file. The loop has no \<^verbatim>\<open>break\<close> after a successful read:
  it reads the file again with each later encoding and keeps the last result. The file
  with an accented letter in UTF-8 decodes in UTF-8, the first encoding, to the letter
  (code point E9); the lines that the loop leaves are those of the last encoding, with
  the two characters C3 and A9 in its place.
\<close>

theorem read_loop_keeps_last_decoding:
  "map_option (readlines []) (decode UTF_8 accented_file) = Some [[0x3B, 0xE9, 0x0A]] \<and>
   read_loop (Some accented_file) encodings None = Inr (Some [[0x3B, 0xC3, 0xA9, 0x0A]])"
  by (simp add: accented_file_def encodings_def cont_def cp1252_char_def)

subsection \<open>The specification line\<close>

lemma spec_loop_none:
  "\<forall>line \<in> set lines. \<not> spec_candidate line \<Longrightarrow> spec_loop pyfloat e i lines = Inr (e, 0)"
  by (induction lines arbitrary: i) (auto simp: spec_candidate_def Let_def)

lemma spec_loop_skip:
  "\<forall>line \<in> set pre. \<not> spec_candidate line \<Longrightarrow>
   spec_loop pyfloat e i (pre @ rest) = spec_loop pyfloat e (i + length pre) rest"
  by (induction pre arbitrary: i) (auto simp: spec_candidate_def Let_def)

lemma spec_loop_bad_field:
  assumes "spec_candidate line"
    and "pyfloat (split (strip line) ! 1) = None \<or> pyfloat (split (strip line) ! 2) = None \<or>
         pyfloat (split (strip line) ! 4) = None \<or> pyfloat (split (strip line) ! 5) = None"
  shows "spec_loop pyfloat e i (line # rest) = Inl ValueError"
  using assms by (auto simp: spec_candidate_def Let_def split: option.splits)

lemma data_loop_keeps_spec:
  "name (data_loop pyfloat e lines) = name e \<and>
   diameter (data_loop pyfloat e lines) = diameter e \<and>
   length_mm (data_loop pyfloat e lines) = length_mm e \<and>
   propellant_mass (data_loop pyfloat e lines) = propellant_mass e \<and>
   total_mass (data_loop pyfloat e lines) = total_mass e"
  by (induction lines arbitrary: e) (auto simp: Let_def split: option.splits)

text \<open>
  Claim C3, as the code has it. For a file that is read as the lines \<open>lines\<close>: when no
  line is a line that is not skipped and has at least six fields, parsing succeeds, the
  entry point goes on with the engine, and the name, the diameter, the length and the two
  masses have the values of the constructor (empty and 0); when the first such line has
  a second, third, fifth or sixth field that \<^verbatim>\<open>float\<close> refuses, parsing fails with
  \<^verbatim>\<open>ValueError\<close>, and the entry point stops with its message and status 1.
\<close>

theorem parse_spec_line:
  assumes "read_loop file encodings None = Inr (Some lines)"
  shows "((\<forall>line \<in> set lines. \<not> spec_candidate line) \<longrightarrow>
            (\<exists>e. parse pyfloat file = Inr e \<and> load_engine pyfloat file = Loaded e \<and>
                 name e = [] \<and> diameter e = 0 \<and> length_mm e = 0 \<and>
                 propellant_mass e = 0 \<and> total_mass e = 0)) \<and>
         (lines = pre @ line # post \<and> (\<forall>l \<in> set pre. \<not> spec_candidate l) \<and> spec_candidate line \<and>
          (pyfloat (split (strip line) ! 1) = None \<or> pyfloat (split (strip line) ! 2) = None \<or>
           pyfloat (split (strip line) ! 4) = None \<or> pyfloat (split (strip line) ! 5) = None) \<longrightarrow>
            parse pyfloat file = Inl ValueError \<and>
            load_engine pyfloat file = Exit_parse_error ValueError)"
proof (rule conjI; rule impI)
  assume none: "\<forall>line \<in> set lines. \<not> spec_candidate line"
  have "parse pyfloat file = Inr (data_loop pyfloat EngineParser_init lines)"
    using assms spec_loop_none [OF none] by (simp add: parse_def parse_lines_def)
  then show "\<exists>e. parse pyfloat file = Inr e \<and> load_engine pyfloat file = Loaded e \<and>
                 name e = [] \<and> diameter e = 0 \<and> length_mm e = 0 \<and>
                 propellant_mass e = 0 \<and> total_mass e = 0"
    using data_loop_keeps_spec [of pyfloat EngineParser_init lines]
    by (simp add: load_engine_def EngineParser_init_def)
next
  assume bad: "lines = pre @ line # post \<and> (\<forall>l \<in> set pre. \<not> spec_candidate l) \<and> spec_candidate line \<and>
          (pyfloat (split (strip line) ! 1) = None \<or> pyfloat (split (strip line) ! 2) = None \<or>
           pyfloat (split (strip line) ! 4) = None \<or> pyfloat (split (strip line) ! 5) = None)"
  then have "spec_loop pyfloat EngineParser_init 0 lines = Inl ValueError"
    using spec_loop_skip [of pre pyfloat EngineParser_init 0 "line # post"]
      spec_loop_bad_field [of line pyfloat EngineParser_init "0 + length pre" post]
    by simp
  then have "parse pyfloat file = Inl ValueError"
    using assms by (simp add: parse_def parse_lines_def)
  then show "parse pyfloat file = Inl ValueError \<and>
            load_engine pyfloat file = Exit_parse_error ValueError"
    by (simp add: load_engine_def)
qed

lemma samples_only_lines:
  "read_loop (Some samples_only_file) encodings None =
     Inr (Some [ustr ''0.0 0.0'' @ [10], ustr ''1.0 50.0'' @ [10]])"
  by (simp add: samples_only_file_def ustr_def encodings_def cp1252_char_def)

lemma samples_only_no_candidate:
  "\<forall>line \<in> set [ustr ''0.0 0.0'' @ [10], ustr ''1.0 50.0'' @ [10]]. \<not> spec_candidate line"
  by (simp add: spec_candidate_def ustr_def strip_def split_def skipped_def isspace_def)

lemma bad_spec_lines:
  "read_loop (Some bad_spec_file) encodings None =
     Inr (Some ([] @ (ustr ''F35 x 95 0-4-6-8 0.090 0.118 TSP'' @ [10]) # [ustr ''0.0 0.0'' @ [10]]))"
  by (simp add: bad_spec_file_def ustr_def encodings_def cp1252_char_def)

lemma bad_spec_candidate:
  "spec_candidate (ustr ''F35 x 95 0-4-6-8 0.090 0.118 TSP'' @ [10]) \<and>
   float_decimal (split (strip (ustr ''F35 x 95 0-4-6-8 0.090 0.118 TSP'' @ [10])) ! 1) = None"
  by (simp add: spec_candidate_def ustr_def strip_def split_def skipped_def isspace_def
      float_decimal_def unsigned_decimal_def isdigit_def)

theorem parse_spec_line_witness:
  "(\<exists>e. parse float_decimal (Some samples_only_file) = Inr e \<and>
        load_engine float_decimal (Some samples_only_file) = Loaded e \<and>
        name e = [] \<and> diameter e = 0 \<and> length_mm e = 0 \<and>
        propellant_mass e = 0 \<and> total_mass e = 0) \<and>
   parse float_decimal (Some bad_spec_file) = Inl ValueError \<and>
   load_engine float_decimal (Some bad_spec_file) = Exit_parse_error ValueError"
  using parse_spec_line [OF samples_only_lines, where pyfloat = float_decimal]
    samples_only_no_candidate
    parse_spec_line [OF bad_spec_lines, where pyfloat = float_decimal and pre = "[]"
      and line = "ustr ''F35 x 95 0-4-6-8 0.090 0.118 TSP'' @ [10]"
      and post = "[ustr ''0.0 0.0'' @ [10]]"]
    bad_spec_candidate
  by simp

text \<open>The file with two data lines and no specification line is parsed without an error:
  the entry point goes on with a motor that has the two samples, no name and no mass.\<close>

theorem missing_spec_line_counterexample:
  "load_engine float_decimal (Some samples_only_file) =
     Loaded (EngineParser_init\<lparr>time := [0, 1], thrust_samples := [0, 50]\<rparr>)"
  by (simp add: load_engine_def parse_def parse_lines_def samples_only_file_def ustr_def
      encodings_def cp1252_char_def cont_def
      strip_def split_def skipped_def isspace_def
      float_decimal_def unsigned_decimal_def isdigit_def digits_value_def EngineParser_init_def)

subsection \<open>The two arrays of samples\<close>

text \<open>A parsed motor has as many thrusts as times.\<close>

lemma data_loop_lengths:
  "length (thrust_samples e) = length (time e) \<Longrightarrow>
   length (thrust_samples (data_loop pyfloat e lines)) = length (time (data_loop pyfloat e lines))"
  by (induction lines arbitrary: e) (auto simp: Let_def split: option.splits)

lemma spec_loop_samples:
  "spec_loop pyfloat e i lines = Inr (e', k) \<Longrightarrow>
   time e' = time e \<and> thrust_samples e' = thrust_samples e"
  by (induction lines arbitrary: i) (auto simp: Let_def split: if_splits option.splits)

lemma parse_lengths:
  assumes "parse pyfloat file = Inr e"
  shows "length (thrust_samples e) = length (time e)"
proof -
  from assms obtain lines e' k where
    sl: "spec_loop pyfloat EngineParser_init 0 lines = Inr (e', k)" and
    e: "e = data_loop pyfloat e' (drop k lines)"
    by (auto simp: parse_def parse_lines_def split: sum.splits option.splits)
  have "length (thrust_samples e') = length (time e')"
    using spec_loop_samples [OF sl] by (simp add: EngineParser_init_def)
  then show ?thesis unfolding e by (rule data_loop_lengths)
qed

section \<open>The motor model\<close>

subsection \<open>The thrust after the burn, and the constant motor\<close>

text \<open>
  Claim C7. Whatever the motor of the simulator is, a sampled curve or a constant, its
  thrust is 0 at every time after the burn time; and the simulator built from the
  manual scalars returns the given thrust at every time up to the burn time.
\<close>

theorem thrust_zero_after_burn_time:
  "(t > burn_time S \<longrightarrow> thrust S t = 0) \<and>
   (t \<le> burn_time (RocketSimulator_init tm d c (Manual F bt pm)) \<longrightarrow>
      thrust (RocketSimulator_init tm d c (Manual F bt pm)) t = F)"
  by (simp add: thrust_def)

theorem thrust_zero_after_burn_time_witness:
  "thrust (RocketSimulator_init 1 0.06 0.9 (Manual 105 1 0.13)) 2 = 0 \<and>
   thrust (RocketSimulator_init 1 0.06 0.9 (Manual 105 1 0.13)) 1 = 105"
  using thrust_zero_after_burn_time
      [where S = "RocketSimulator_init 1 0.06 0.9 (Manual 105 1 0.13)" and t = 2
         and tm = 1 and d = "0.06" and c = "0.9" and F = 105 and bt = 1 and pm = "0.13"]
    thrust_zero_after_burn_time
      [where S = "RocketSimulator_init 1 0.06 0.9 (Manual 105 1 0.13)" and t = 1
         and tm = 1 and d = "0.06" and c = "0.9" and F = 105 and bt = 1 and pm = "0.13"]
  by simp

subsection \<open>The interpolated thrust curve\<close>

lemma interval_index_eq:
  assumes "k < length xs"
    and "\<And>i. i \<le> k \<Longrightarrow> xs ! i \<le> t" and "Suc k < length xs \<Longrightarrow> t < xs ! Suc k"
  shows "interval_index xs t = k"
proof -
  have "takeWhile (\<lambda>x. x \<le> t) xs = take (Suc k) xs"
    using assms(2,3) by (intro takeWhile_eq_take_P_nth) auto
  then show ?thesis using assms(1) by (simp add: interval_index_def)
qed

lemma interval_index_inside:
  assumes "sorted_wrt (<) xs" and "Suc j < length xs" and "xs ! j \<le> t" and "t < xs ! Suc j"
  shows "interval_index xs t = j"
proof (rule interval_index_eq)
  show "j < length xs" using assms(2) by simp
next
  fix i assume "i \<le> j"
  then have "i = j \<or> i < j" by auto
  then show "xs ! i \<le> t"
  proof
    assume "i = j" then show ?thesis using assms(3) by simp
  next
    assume "i < j"
    then have "xs ! i < xs ! j" using assms(1,2) by (simp add: sorted_wrt_nth_less)
    then show ?thesis using assms(3) by simp
  qed
next
  show "t < xs ! Suc j" using assms(4) .
qed

lemma interval_index_at_sample:
  assumes "sorted_wrt (<) xs" and "k < length xs"
  shows "interval_index xs (xs ! k) = k"
proof (rule interval_index_eq [OF assms(2)])
  fix i assume "i \<le> k"
  then have "i = k \<or> i < k" by auto
  then show "xs ! i \<le> xs ! k"
  proof
    assume "i = k" then show ?thesis by simp
  next
    assume "i < k"
    then have "xs ! i < xs ! k" using assms by (simp add: sorted_wrt_nth_less)
    then show ?thesis by simp
  qed
next
  assume "Suc k < length xs"
  then show "xs ! k < xs ! Suc k" using assms(1) by (simp add: sorted_wrt_nth_less)
qed

text \<open>Where \<open>np_interp\<close> divides, the two abscissae differ.\<close>

lemma interval_index_bracket:
  assumes "xs \<noteq> []" and "hd xs \<le> t" and "interval_index xs t \<noteq> length xs - 1"
  shows "xs ! interval_index xs t \<le> t \<and> t < xs ! Suc (interval_index xs t)"
proof -
  define k where "k = length (takeWhile (\<lambda>x. x \<le> t) xs)"
  have "takeWhile (\<lambda>x. x \<le> t) xs \<noteq> []"
    using assms(1,2) by (cases xs) auto
  then have k0: "0 < k" by (simp add: k_def)
  have kle: "k \<le> length xs" by (simp add: k_def length_takeWhile_le)
  have "k \<noteq> length xs" using assms(3) by (simp add: interval_index_def k_def)
  then have klt: "k < length xs" using kle by simp
  then have "\<not> xs ! k \<le> t"
    unfolding k_def by (rule nth_length_takeWhile)
  moreover have "xs ! (k - 1) \<le> t"
  proof -
    have lt: "k - 1 < length (takeWhile (\<lambda>x. x \<le> t) xs)" using k0 by (simp add: k_def)
    then have mem: "takeWhile (\<lambda>x. x \<le> t) xs ! (k - 1) \<in> set (takeWhile (\<lambda>x. x \<le> t) xs)"
      by (rule nth_mem)
    have "takeWhile (\<lambda>x. x \<le> t) xs ! (k - 1) = xs ! (k - 1)"
      using lt by (rule takeWhile_nth)
    then have "xs ! (k - 1) \<in> set (takeWhile (\<lambda>x. x \<le> t) xs)" using mem by simp
    then show ?thesis by (rule set_takeWhileD [THEN conjunct2])
  qed
  ultimately show ?thesis using k0 by (simp add: interval_index_def k_def)
qed

text \<open>Samples in increasing order of time are left as they are by the sort.\<close>

lemma sorted_samples_unchanged:
  assumes "sorted_wrt (<) x" and "length y = length x"
  shows "sort_key fst (zip x y) = zip x y"
proof -
  have "sorted x" using assms(1) by (simp add: strict_sorted_iff)
  then have "sorted (map fst (zip x y))" using assms(2) by simp
  then show ?thesis by (rule sort_key_id_if_sorted)
qed

lemma hd_le_nth:
  assumes "sorted_wrt (<) (xs :: real list)" and "k < length xs"
  shows "hd xs \<le> xs ! k"
proof -
  have ne: "xs \<noteq> []" using assms(2) by auto
  have "xs ! 0 \<le> xs ! k"
  proof (cases k)
    case 0 then show ?thesis by simp
  next
    case (Suc n)
    then have "xs ! 0 < xs ! k" using assms by (simp add: sorted_wrt_nth_less)
    then show ?thesis by simp
  qed
  then show ?thesis using ne by (simp add: hd_conv_nth)
qed

lemma nth_le_last:
  assumes "sorted_wrt (<) (xs :: real list)" and "k < length xs"
  shows "xs ! k \<le> last xs"
proof -
  have ne: "xs \<noteq> []" using assms(2) by auto
  have "xs ! k \<le> xs ! (length xs - 1)"
  proof (cases "k = length xs - 1")
    case True then show ?thesis by simp
  next
    case False
    then have "k < length xs - 1" using assms(2) by simp
    then have "xs ! k < xs ! (length xs - 1)" using assms by (simp add: sorted_wrt_nth_less)
    then show ?thesis by simp
  qed
  then show ?thesis using ne by (simp add: last_conv_nth)
qed

text \<open>On the segment between two consecutive samples the interpolator is the line through
  them; this includes both ends of the segment.\<close>

lemma np_interp_segment:
  assumes sorted: "sorted_wrt (<) x"
    and j: "Suc j < length x" and lo: "x ! j \<le> t" and hi: "t \<le> x ! Suc j"
  shows "np_interp x y t = (y ! Suc j - y ! j) / (x ! Suc j - x ! j) * (t - x ! j) + y ! j"
proof (cases "t = x ! Suc j")
  case False
  then have "t < x ! Suc j" using hi by simp
  then have ix: "interval_index x t = j"
    using sorted j lo by (simp add: interval_index_inside)
  have "j \<noteq> length x - 1" using j by simp
  then show ?thesis using ix by (simp add: np_interp_def Let_def)
next
  case True
  have lt: "x ! j < x ! Suc j" using sorted j by (simp add: sorted_wrt_nth_less)
  have ix: "interval_index x t = Suc j"
    using sorted j True by (simp add: interval_index_at_sample)
  have "np_interp x y t = y ! Suc j"
    using ix True by (simp add: np_interp_def Let_def)
  also have "y ! Suc j = (y ! Suc j - y ! j) / (x ! Suc j - x ! j) * (t - x ! j) + y ! j"
    using lt True by simp
  finally show ?thesis .
qed

lemma interp1d_segment:
  assumes sorted: "sorted_wrt (<) x" and len: "length y = length x"
    and j: "Suc j < length x" and lo: "x ! j \<le> t" and hi: "t \<le> x ! Suc j"
  shows "interp1d x y t = (y ! Suc j - y ! j) / (x ! Suc j - x ! j) * (t - x ! j) + y ! j"
proof -
  have xs: "map fst (zip x y) = x" and ys: "map snd (zip x y) = y"
    using len by simp_all
  have "hd x \<le> x ! j" using sorted j by (simp add: hd_le_nth)
  then have inl: "\<not> t < hd x" using lo by simp
  have "x ! Suc j \<le> last x" using sorted j by (simp add: nth_le_last)
  then have inh: "\<not> t > last x" using hi by simp
  show ?thesis
    using inl inh np_interp_segment [OF sorted j lo hi, of y]
    by (simp add: interp1d_def sorted_samples_unchanged [OF sorted len] xs ys)
qed

lemma curve_thrust:
  assumes "2 \<le> length (time e)" and "t \<le> last (time e)"
  shows "thrust (RocketSimulator_init tm d c (Engine e)) t = interp1d (time e) (thrust_samples e) t"
proof -
  have "time e \<noteq> []" using assms(1) by auto
  then show ?thesis
    using assms by (simp add: thrust_def get_burn_time_def get_thrust_interpolator_def)
qed

lemma curve_thrust_late:
  assumes "2 \<le> length (time e)" and "t > last (time e)"
  shows "thrust (RocketSimulator_init tm d c (Engine e)) t = 0"
proof -
  have "time e \<noteq> []" using assms(1) by auto
  then show ?thesis
    using assms by (simp add: thrust_def get_burn_time_def)
qed

lemma curve_thrust_outside:
  assumes "sorted_wrt (<) (time e)" and "length (thrust_samples e) = length (time e)"
    and "2 \<le> length (time e)" and "t < hd (time e) \<or> t > last (time e)"
  shows "thrust (RocketSimulator_init tm d c (Engine e)) t = 0"
proof (cases "t > last (time e)")
  case True
  show ?thesis by (rule curve_thrust_late [OF assms(3) True])
next
  case False
  then have "t < hd (time e)" using assms(4) by simp
  moreover have "map fst (zip (time e) (thrust_samples e)) = time e" using assms(2) by simp
  ultimately have "interp1d (time e) (thrust_samples e) t = 0"
    by (simp add: interp1d_def sorted_samples_unchanged [OF assms(1,2)])
  then show ?thesis
    using False assms(3) by (simp add: curve_thrust del: RocketSimulator_init.simps)
qed

lemma curve_thrust_segment:
  assumes "sorted_wrt (<) (time e)" and "length (thrust_samples e) = length (time e)"
    and "Suc j < length (time e)" and "time e ! j \<le> t" and "t \<le> time e ! Suc j"
  shows "thrust (RocketSimulator_init tm d c (Engine e)) t =
           (thrust_samples e ! Suc j - thrust_samples e ! j) / (time e ! Suc j - time e ! j)
             * (t - time e ! j) + thrust_samples e ! j"
proof -
  have "time e ! Suc j \<le> last (time e)" using assms(1,3) by (simp add: nth_le_last)
  then have "t \<le> last (time e)" using assms(5) by simp
  moreover have "2 \<le> length (time e)" using assms(3) by simp
  ultimately show ?thesis
    using interp1d_segment [OF assms] by (simp add: curve_thrust del: RocketSimulator_init.simps)
qed

text \<open>
  Claim C4. Take a motor with at least two samples whose times increase strictly (the
  two arrays of the parser have one length), and the simulator built from it. Its
  thrust at the time of a sample is the thrust of that sample; it is 0 at every time
  before the first sample's or after the last sample's; and at a time \<open>t\<close> between two
  consecutive samples it is the convex combination of their thrusts with the weight
  \<open>w\<close> that makes \<open>t\<close> the same combination of their times. Numbers are reals here:
  the arithmetic of the interpolation is exact.
\<close>

theorem sampled_thrust_interpolates:
  assumes "sorted_wrt (<) (time e)" and "length (thrust_samples e) = length (time e)"
    and "2 \<le> length (time e)" and "S = RocketSimulator_init tm d c (Engine e)"
  shows "(i < length (time e) \<longrightarrow> thrust S (time e ! i) = thrust_samples e ! i) \<and>
         (t < hd (time e) \<or> t > last (time e) \<longrightarrow> thrust S t = 0) \<and>
         (Suc j < length (time e) \<and> time e ! j \<le> t \<and> t \<le> time e ! Suc j \<longrightarrow>
            (\<exists>w. 0 \<le> w \<and> w \<le> 1 \<and> t = (1 - w) * time e ! j + w * time e ! Suc j \<and>
                 thrust S t = (1 - w) * thrust_samples e ! j + w * thrust_samples e ! Suc j))"
proof (intro conjI impI)
  assume i: "i < length (time e)"
  show "thrust S (time e ! i) = thrust_samples e ! i"
  proof (cases "Suc i < length (time e)")
    case True
    then show ?thesis
      using curve_thrust_segment [OF assms(1,2) True, of "time e ! i" tm d c] assms(1,4)
      by (simp add: sorted_wrt_nth_less less_imp_le del: RocketSimulator_init.simps)
  next
    case False
    then obtain k where k: "i = Suc k" using i assms(3) by (cases i) auto
    have lt: "time e ! k < time e ! Suc k" using assms(1) i k by (simp add: sorted_wrt_nth_less)
    have "thrust S (time e ! Suc k) =
            (thrust_samples e ! Suc k - thrust_samples e ! k) / (time e ! Suc k - time e ! k)
              * (time e ! Suc k - time e ! k) + thrust_samples e ! k"
      using curve_thrust_segment [OF assms(1,2), of k "time e ! Suc k" tm d c] i k lt assms(4)
      by (simp del: RocketSimulator_init.simps)
    then show ?thesis using lt k by simp
  qed
next
  assume "t < hd (time e) \<or> t > last (time e)"
  then show "thrust S t = 0"
    using curve_thrust_outside [OF assms(1,2,3)] assms(4)
    by (simp del: RocketSimulator_init.simps)
next
  assume seg: "Suc j < length (time e) \<and> time e ! j \<le> t \<and> t \<le> time e ! Suc j"
  define w where "w = (t - time e ! j) / (time e ! Suc j - time e ! j)"
  have lt: "time e ! j < time e ! Suc j" using assms(1) seg by (simp add: sorted_wrt_nth_less)
  have w0: "0 \<le> w" using seg lt by (simp add: w_def)
  have w1: "w \<le> 1" using seg lt by (simp add: w_def)
  have wt: "w * (time e ! Suc j - time e ! j) = t - time e ! j" using lt by (simp add: w_def)
  have t: "t = (1 - w) * time e ! j + w * time e ! Suc j"
    using wt by (simp add: algebra_simps)
  have "thrust S t =
          (thrust_samples e ! Suc j - thrust_samples e ! j) / (time e ! Suc j - time e ! j)
            * (t - time e ! j) + thrust_samples e ! j"
    using curve_thrust_segment [OF assms(1,2), of j t tm d c] seg assms(4)
    by (simp del: RocketSimulator_init.simps)
  also have "(thrust_samples e ! Suc j - thrust_samples e ! j) / (time e ! Suc j - time e ! j)
                 * (t - time e ! j) + thrust_samples e ! j =
             (1 - w) * thrust_samples e ! j + w * thrust_samples e ! Suc j"
    by (simp add: w_def algebra_simps diff_divide_distrib add_divide_distrib)
  finally show "\<exists>w. 0 \<le> w \<and> w \<le> 1 \<and> t = (1 - w) * time e ! j + w * time e ! Suc j \<and>
                 thrust S t = (1 - w) * thrust_samples e ! j + w * thrust_samples e ! Suc j"
    using w0 w1 t by blast
qed

theorem sampled_thrust_interpolates_witness:
  "thrust (RocketSimulator_init 1 0.06 0.9 (Engine ramp_engine)) 1 = 50 \<and>
   thrust (RocketSimulator_init 1 0.06 0.9 (Engine ramp_engine)) 2 = 0 \<and>
   thrust (RocketSimulator_init 1 0.06 0.9 (Engine ramp_engine)) (1/2) = 25"
  using sampled_thrust_interpolates [where e = ramp_engine and tm = 1 and d = "0.06" and c = "0.9"
      and S = "RocketSimulator_init 1 0.06 0.9 (Engine ramp_engine)" and i = 1 and t = 2 and j = 0]
    sampled_thrust_interpolates [where e = ramp_engine and tm = 1 and d = "0.06" and c = "0.9"
      and S = "RocketSimulator_init 1 0.06 0.9 (Engine ramp_engine)" and i = 1 and t = "1/2" and j = 0]
  by (auto simp add: ramp_engine_def simp del: RocketSimulator_init.simps)

subsection \<open>The average thrust\<close>

lemma trapezoid_is_sum:
  "length ys = length xs \<Longrightarrow> trapezoid ys xs = trapezoid_sum ys xs"
proof (induction ys xs rule: trapezoid.induct)
  case (1 y0 y1 ys x0 x1 xs)
  then have IH: "trapezoid (y1 # ys) (x1 # xs) = trapezoid_sum (y1 # ys) (x1 # xs)" by simp
  define F where "F i = ((x0 # x1 # xs) ! Suc i - (x0 # x1 # xs) ! i)
                        * ((y0 # y1 # ys) ! i + (y0 # y1 # ys) ! Suc i) / 2" for i
  have "trapezoid_sum (y0 # y1 # ys) (x0 # x1 # xs) = (\<Sum>i < Suc (length xs). F i)"
    by (simp add: trapezoid_sum_def F_def)
  also have "\<dots> = F 0 + (\<Sum>i < length xs. F (Suc i))"
    by (rule sum.lessThan_Suc_shift)
  also have "\<dots> = (x1 - x0) * (y0 + y1) / 2 + trapezoid_sum (y1 # ys) (x1 # xs)"
    by (simp add: trapezoid_sum_def F_def)
  finally show ?case using IH by simp
qed (auto simp: trapezoid_sum_def)

text \<open>
  Claim C6, as the code has it. For a motor with at least two samples and a positive
  burn time, the average thrust times the burn time is the trapezoidal integral of the
  thrust samples over their times; for a motor with fewer than two samples the average
  thrust is 0. (The test of the function is on the number of samples only.)
\<close>

theorem average_thrust_is_impulse_over_burn_time:
  assumes "length (thrust_samples e) = length (time e)"
  shows "(2 \<le> length (time e) \<and> 0 < get_burn_time e \<longrightarrow>
            (\<exists>a. get_average_thrust e = Inr a \<and>
                 a * get_burn_time e = trapezoid_sum (thrust_samples e) (time e))) \<and>
         (length (time e) < 2 \<longrightarrow> get_average_thrust e = Inr 0)"
  using assms by (auto simp: get_average_thrust_def trapezoid_is_sum)

theorem average_thrust_is_impulse_over_burn_time_witness:
  "get_average_thrust ramp_engine = Inr 25 \<and>
   25 * get_burn_time ramp_engine = trapezoid_sum (thrust_samples ramp_engine) (time ramp_engine) \<and>
   get_average_thrust EngineParser_init = Inr 0"
  using average_thrust_is_impulse_over_burn_time [of ramp_engine]
    average_thrust_is_impulse_over_burn_time [of EngineParser_init]
  by (simp add: ramp_engine_def EngineParser_init_def get_burn_time_def get_average_thrust_def)

text \<open>With two samples at time 0 the burn time is 0 and the average thrust is not 0: the
  quotient of the impulse by the burn time is not a number.\<close>

theorem average_thrust_zero_burn_time_counterexample:
  "get_burn_time stalled_engine = 0 \<and> get_average_thrust stalled_engine \<noteq> Inr 0"
  by (simp add: stalled_engine_def EngineParser_init_def get_burn_time_def get_average_thrust_def)

section \<open>The trajectory integrator\<close>

subsection \<open>The instantaneous mass\<close>



























text \<open>The mass with rounded operations.\<close>

lemma mass_rounded_exact: "mass_rounded (\<lambda>x. x) S t = mass S t"
  by (simp add: mass_rounded_def mass_def)









lemma mass_zero_burn_time:
  "burn_time S = 0 \<Longrightarrow> mass S t = (if t \<le> 0 then Inl ZeroDivision else Inr (mf S))"
  by (simp add: mass_def)

text \<open>
  Claim C5. The claim asks that the mass be defined at every time from 0 on when the
  burn time is 0, with the value \<open>mf\<close>. The code divides by the burn time whenever
  \<open>t \<le> burn_time\<close>, and at \<open>t = 0\<close> with a burn time of 0 that is a division by
  zero: for the simulator built with a manual burn time of 0, and for the one built from
  a motor without samples, whose burn time \<^verbatim>\<open>get_burn_time\<close> gives as 0.
\<close>

theorem mass_at_zero_burn_time_divides_by_zero:
  "mass (RocketSimulator_init 1 0.06 0.9 (Manual 105 0 0.13)) 0 = Inl ZeroDivision \<and>
   mass (RocketSimulator_init 1 0.06 0.9 (Engine EngineParser_init)) 0 = Inl ZeroDivision"
  by (simp add: mass_def get_burn_time_def EngineParser_init_def)

subsection \<open>The recorded series\<close>

lemma series_ok_initial: "series_ok dt thrust0 (initial_state thrust0)"
  by (simp add: series_ok_def initial_state_def)

lemma step_fields:
  assumes "step S dt s = Inr s'"
  shows "st_t s' = st_t s + dt"
    and "st_times s' = st_times s @ [st_t s + dt]"
    and "\<exists>h. st_heights s' = st_heights s @ [h]"
    and "\<exists>v. st_velocities s' = st_velocities s @ [v]"
    and "\<exists>f. st_thrusts s' = st_thrusts s @ [f]"
    and "apogee s' = apogee s"
    and "time_to_apogee s' = time_to_apogee s"
  using assms
  by (auto simp: step_def Let_def split: sum.splits if_splits)

lemma step_series_ok:
  assumes "step S dt s = Inr s'" and "series_ok dt thrust0 s"
  shows "series_ok dt thrust0 s'"
proof -
  obtain h v f where
    t: "st_t s' = st_t s + dt" and
    ts: "st_times s' = st_times s @ [st_t s + dt]" and
    hs: "st_heights s' = st_heights s @ [h]" and
    vs: "st_velocities s' = st_velocities s @ [v]" and
    fs: "st_thrusts s' = st_thrusts s @ [f]"
    using step_fields [OF assms(1)] by blast
  have ne: "st_times s \<noteq> []" "st_heights s \<noteq> []" "st_velocities s \<noteq> []" "st_thrusts s \<noteq> []"
    using assms(2) by (auto simp: series_ok_def)
  have "st_times s' ! Suc i = st_times s' ! i + dt" if "Suc i < length (st_times s')" for i
  proof (cases "Suc i < length (st_times s)")
    case True
    then show ?thesis using assms(2) by (simp add: ts nth_append series_ok_def)
  next
    case False
    then have i: "Suc i = length (st_times s)" using that by (simp add: ts)
    then have "i = length (st_times s) - 1" by simp
    then have "st_times s ! i = last (st_times s)" using ne(1) by (simp add: last_conv_nth)
    then show ?thesis using i assms(2) by (simp add: ts nth_append series_ok_def)
  qed
  then show ?thesis
    using assms(2) ne by (simp add: series_ok_def t ts hs vs fs)
qed

lemma ascent_loop_series_ok:
  assumes "ascent_loop n S dt s = Some (Inr (exit, s'))" and "series_ok dt thrust0 s"
  shows "series_ok dt thrust0 s'"
  using assms
proof (induction n arbitrary: s)
  case 0
  then show ?case by simp
next
  case (Suc n)
  from Suc.prems(1) obtain s1 where s1: "step S dt s = Inr s1"
    by (auto split: sum.splits)
  have ok1: "series_ok dt thrust0 s1" using step_series_ok [OF s1 Suc.prems(2)] .
  show ?case
  proof (cases "st_v s1 \<le> 0 \<and> st_h s1 > 0")
    case True
    then have "s' = s1\<lparr>apogee := Some (st_h s1), time_to_apogee := Some (st_t s1)\<rparr>"
      using Suc.prems(1) s1 by simp
    then show ?thesis using ok1 by (simp add: series_ok_def)
  next
    case False
    show ?thesis
    proof (cases "st_t s1 > 300 \<or> st_h s1 < -10")
      case True
      then have "s' = s1" using Suc.prems(1) s1 False by simp
      then show ?thesis using ok1 by simp
    next
      case nb: False
      then have "ascent_loop n S dt s1 = Some (Inr (exit, s'))"
        using Suc.prems(1) s1 False by simp
      then show ?thesis using Suc.IH ok1 by blast
    qed
  qed
qed

text \<open>
  Claim C10. When \<^verbatim>\<open>simulate\<close> returns a result, the series of heights, velocities
  and thrusts are as long as the series of times; the first entries are the time 0, the
  height 0, the velocity 0 and the thrust at time 0; and each entry of the series of
  times after the first is the one before it plus \<open>dt\<close>.
\<close>

theorem simulate_series:
  assumes "simulate n S dt = Some (Inr r)"
  shows "length (heights r) = length (times r) \<and>
         length (velocities r) = length (times r) \<and>
         length (thrusts r) = length (times r) \<and>
         times r \<noteq> [] \<and>
         hd (times r) = 0 \<and> hd (heights r) = 0 \<and> hd (velocities r) = 0 \<and>
         thrust S 0 = hd (thrusts r) \<and>
         (\<forall>i. Suc i < length (times r) \<longrightarrow> times r ! Suc i = times r ! i + dt)"
proof -
  from assms obtain exit s where
    loop: "ascent_loop n S dt (initial_state (thrust S 0)) = Some (Inr (exit, s))" and
    ret: "return_results s = Inr r"
    by (auto simp: simulate_def split: option.splits sum.splits)
  have ok: "series_ok dt (thrust S 0) s"
    using ascent_loop_series_ok [OF loop series_ok_initial] .
  have "times r = st_times s" "heights r = st_heights s" "velocities r = st_velocities s"
    "thrusts r = st_thrusts s"
    using ret by (auto simp: return_results_def split: option.splits)
  then show ?thesis using ok by (simp add: series_ok_def)
qed

text \<open>A run that returns: the rocket without drag climbs for one step of 1 s and is at
  its apogee after the second.\<close>

lemma coasting_run: "simulate 2 coasting_rocket 1 = Some (Inr coasting_results)"
  by (simp add: simulate_def coasting_rocket_def coasting_results_def thrust_def mass_def
      step_def drag_force_def initial_state_def return_results_def truthy_or_0_def
      numeral_2_eq_2 Let_def)

theorem simulate_series_witness:
  "simulate 2 coasting_rocket 1 = Some (Inr coasting_results) \<and>
   length (heights coasting_results) = 3 \<and> length (times coasting_results) = 3 \<and>
   hd (times coasting_results) = 0 \<and>
   thrust coasting_rocket 0 = hd (thrusts coasting_results) \<and>
   times coasting_results ! 1 = times coasting_results ! 0 + 1 \<and>
   times coasting_results ! 2 = times coasting_results ! 1 + 1"
  using simulate_series [OF coasting_run] coasting_run
  by (simp add: coasting_results_def)

subsection \<open>A motor without thrust\<close>

lemma step_zero_thrust:
  assumes zero: "\<forall>t. thrust S t = 0"
    and m: "\<forall>t\<ge>0. \<exists>m. mass S t = Inr m \<and> m \<noteq> 0"
    and "0 \<le> st_t s" and "st_v s \<le> 0"
  shows "\<exists>s'. step S dt s = Inr s' \<and> st_t s' = st_t s + dt \<and>
              st_v s' = st_v s - g S * dt \<and> st_h s' = st_h s + st_v s' * dt \<and>
              apogee s' = apogee s"
proof -
  obtain m' where m': "mass S (st_t s) = Inr m'" "m' \<noteq> 0" using m assms(3) by blast
  have th: "thrust S (st_t s) = 0" using zero by simp
  have "(0 - m' * g S - 0) / m' = - g S" using m'(2) by simp
  then show ?thesis
    using m' th assms(4) by (simp add: step_def Let_def)
qed

text \<open>From a state on or below the ground that does not rise, the loop leaves by the
  safety bound as soon as the passes it may make carry the time beyond 300 s.\<close>

lemma ascent_loop_zero_thrust:
  assumes zero: "\<forall>t. thrust S t = 0"
    and m: "\<forall>t\<ge>0. \<exists>m. mass S t = Inr m \<and> m \<noteq> 0"
    and g: "0 < g S" and dt: "0 < dt"
  shows "0 \<le> st_t s \<Longrightarrow> st_t s \<le> 300 \<Longrightarrow> st_v s \<le> 0 \<Longrightarrow> st_h s \<le> 0 \<Longrightarrow>
         apogee s = None \<Longrightarrow> 300 < st_t s + real n * dt \<Longrightarrow>
         \<exists>s'. ascent_loop n S dt s = Some (Inr (ABORTED, s')) \<and> apogee s' = None \<and>
              st_t s' \<le> 300 + dt \<and> st_h s' < 0"
proof (induction n arbitrary: s)
  case 0
  then show ?case by simp
next
  case (Suc n)
  obtain s1 where s1: "step S dt s = Inr s1" "st_t s1 = st_t s + dt"
    "st_v s1 = st_v s - g S * dt" "st_h s1 = st_h s + st_v s1 * dt" "apogee s1 = apogee s"
    using step_zero_thrust [OF zero m Suc.prems(1,3)] by blast
  have "0 < g S * dt" using g dt by simp
  then have v1: "st_v s1 < 0" using s1(3) Suc.prems(3) by simp
  then have "st_v s1 * dt < 0" using dt by (simp add: mult_neg_pos)
  then have h1: "st_h s1 < 0" using s1(4) Suc.prems(4) by simp
  show ?case
  proof (cases "st_t s1 > 300 \<or> st_h s1 < -10")
    case True
    then have "ascent_loop (Suc n) S dt s = Some (Inr (ABORTED, s1))"
      using s1(1) h1 by simp
    moreover have "st_t s1 \<le> 300 + dt" using s1(2) Suc.prems(2) by simp
    ultimately show ?thesis using h1 s1(5) Suc.prems(5) by simp
  next
    case False
    then have eq: "ascent_loop (Suc n) S dt s = ascent_loop n S dt s1"
      using s1(1) h1 by simp
    have "300 < st_t s1 + real n * dt"
      using Suc.prems(6) s1(2) by (simp add: algebra_simps)
    moreover have "0 \<le> st_t s1" using s1(2) Suc.prems(1) dt by simp
    ultimately show ?thesis
      using Suc.IH [of s1] False v1 h1 s1(5) Suc.prems(5) eq by simp
  qed
qed

text \<open>A positive burn time, a positive mass at liftoff and a positive final mass make the
  mass positive at every time from 0 on.\<close>

lemma positive_mass:
  assumes "0 < burn_time S" and "0 < m0 S" and "0 < mf S" and "mf S = m0 S - mp S" and "0 \<le> t"
  shows "\<exists>m. mass S t = Inr m \<and> 0 < m"
proof (cases "t \<le> burn_time S")
  case False
  then show ?thesis using assms(3) by (simp add: mass_def)
next
  case True
  define w where "w = t / burn_time S"
  have w: "0 \<le> w" "w \<le> 1" using assms(1,5) True by (simp_all add: w_def)
  have mp: "mp S = m0 S - mf S" using assms(4) by simp
  have eq: "m0 S - mp S / burn_time S * t = (1 - w) * m0 S + w * mf S"
    unfolding mp w_def by (simp add: algebra_simps diff_divide_distrib)
  have "0 < (1 - w) * m0 S + w * mf S"
  proof (cases "w < 1")
    case True
    then have "0 < (1 - w) * m0 S" using assms(2) by simp
    moreover have "0 \<le> w * mf S" using w(1) assms(3) by simp
    ultimately show ?thesis by simp
  next
    case False
    then have "w = 1" using w(2) by simp
    then show ?thesis using assms(3) by simp
  qed
  then show ?thesis using True assms(1) eq by (simp add: mass_def)
qed

lemma init_g: "g (RocketSimulator_init tm d c args) = 9.81"
  by (cases args) simp_all

lemma grounded_thrust: "\<forall>t. thrust grounded_rocket t = 0"
  by (simp add: thrust_def grounded_rocket_def)

lemma grounded_mass: "\<forall>t\<ge>0. \<exists>m. mass grounded_rocket t = Inr m \<and> m \<noteq> 0"
proof (intro allI impI)
  fix t :: real assume "0 \<le> t"
  then have "\<exists>m. mass grounded_rocket t = Inr m \<and> 0 < m"
    by (intro positive_mass) (simp_all add: grounded_rocket_def)
  then show "\<exists>m. mass grounded_rocket t = Inr m \<and> m \<noteq> 0" by auto
qed

lemma step_zero_thrust_series:
  assumes zero: "\<forall>t. thrust S t = 0"
    and m: "\<forall>t\<ge>0. \<exists>m. mass S t = Inr m \<and> m \<noteq> 0"
    and "0 \<le> st_t s" and "st_v s \<le> 0"
  shows "\<exists>s'. step S dt s = Inr s' \<and> st_t s' = st_t s + dt \<and>
              st_v s' = st_v s - g S * dt \<and> st_h s' = st_h s + st_v s' * dt \<and>
              apogee s' = apogee s \<and>
              st_times s' = st_times s @ [st_t s'] \<and> st_heights s' = st_heights s @ [st_h s']"
proof -
  obtain m' where m': "mass S (st_t s) = Inr m'" "m' \<noteq> 0" using m assms(3) by blast
  have th: "thrust S (st_t s) = 0" using zero by simp
  have "(0 - m' * g S - 0) / m' = - g S" using m'(2) by simp
  then show ?thesis
    using m' th assms(4) by (simp add: step_def Let_def)
qed

lemma nth_snoc_below:
  assumes "\<forall>i < length ts. below_bound (ts ! i) (hs ! i)" and "length hs = length ts"
    and "Suc i < length (ts @ [t])"
  shows "below_bound ((ts @ [t]) ! i) ((hs @ [h]) ! i)"
  using assms by (simp add: nth_append)

lemma ascent_loop_on_ground:
  assumes zero: "\<forall>t. thrust S t = 0"
    and m: "\<forall>t\<ge>0. \<exists>m. mass S t = Inr m \<and> m \<noteq> 0"
    and g: "0 < g S" and dt: "0 < dt"
  shows "on_ground s \<Longrightarrow> 300 < st_t s + real n * dt \<Longrightarrow>
         \<exists>s'. ascent_loop n S dt s = Some (Inr (ABORTED, s')) \<and> apogee s' = None \<and>
              (st_t s' > 300 \<or> st_h s' < -10) \<and> st_t s' \<le> 300 + dt \<and> st_h s' < 0 \<and>
              length (st_heights s') = length (st_times s') \<and>
              last (st_times s') = st_t s' \<and> last (st_heights s') = st_h s' \<and>
              (\<forall>h \<in> set (st_heights s'). h \<le> 0) \<and>
              (\<forall>i. Suc i < length (st_times s') \<longrightarrow>
                   below_bound (st_times s' ! i) (st_heights s' ! i)) \<and>
              length (st_times s') \<le> length (st_times s) + n"
proof (induction n arbitrary: s)
  case 0
  then show ?case by (simp add: on_ground_def)
next
  case (Suc n)
  have inv: "0 \<le> st_t s" "st_t s \<le> 300" "st_v s \<le> 0" "st_h s \<le> 0" "apogee s = None"
    "length (st_heights s) = length (st_times s)" "st_times s \<noteq> []"
    "\<forall>h \<in> set (st_heights s). h \<le> 0"
    "\<forall>i < length (st_times s). below_bound (st_times s ! i) (st_heights s ! i)"
    using Suc.prems(1) by (simp_all add: on_ground_def)
  obtain s1 where s1: "step S dt s = Inr s1" "st_t s1 = st_t s + dt"
    "st_v s1 = st_v s - g S * dt" "st_h s1 = st_h s + st_v s1 * dt" "apogee s1 = apogee s"
    "st_times s1 = st_times s @ [st_t s1]" "st_heights s1 = st_heights s @ [st_h s1]"
    using step_zero_thrust_series [OF zero m inv(1,3)] by blast
  have "0 < g S * dt" using g dt by simp
  then have v1: "st_v s1 < 0" using s1(3) inv(3) by simp
  then have "st_v s1 * dt < 0" using dt by (simp add: mult_neg_pos)
  then have h1: "st_h s1 < 0" using s1(4) inv(4) by simp
  have len1: "length (st_heights s1) = length (st_times s1)" using s1(6,7) inv(6) by simp
  have last1: "last (st_times s1) = st_t s1" "last (st_heights s1) = st_h s1"
    using s1(6,7) by simp_all
  have hs1: "\<forall>h \<in> set (st_heights s1). h \<le> 0" using s1(7) inv(8) h1 by auto
  have old: "below_bound (st_times s1 ! i) (st_heights s1 ! i)" if "Suc i < length (st_times s1)" for i
    using nth_snoc_below [OF inv(9,6), of i "st_t s1" "st_h s1"] that s1(6,7) by simp
  show ?case
  proof (cases "st_t s1 > 300 \<or> st_h s1 < -10")
    case True
    then have "ascent_loop (Suc n) S dt s = Some (Inr (ABORTED, s1))"
      using s1(1) h1 by simp
    moreover have "st_t s1 \<le> 300 + dt" using s1(2) inv(2) by simp
    moreover have "length (st_times s1) \<le> length (st_times s) + Suc n" using s1(6) by simp
    ultimately show ?thesis
      using True h1 s1(5) inv(5) len1 last1 hs1 old by auto
  next
    case False
    then have eq: "ascent_loop (Suc n) S dt s = ascent_loop n S dt s1"
      using s1(1) h1 by simp
    have far: "300 < st_t s1 + real n * dt"
      using Suc.prems(2) s1(2) by (simp add: algebra_simps)
    have new: "below_bound (st_t s1) (st_h s1)" using False by (simp add: below_bound_def)
    have all: "below_bound (st_times s1 ! i) (st_heights s1 ! i)" if "i < length (st_times s1)" for i
    proof (cases "Suc i < length (st_times s1)")
      case True then show ?thesis by (rule old)
    next
      case False
      then have i: "i = length (st_times s)" using that s1(6) by simp
      have "st_times s1 ! i = st_t s1" unfolding i by (subst s1(6)) simp
      moreover have "st_heights s1 ! i = st_h s1"
        unfolding i inv(6) [symmetric] by (subst s1(7)) simp
      ultimately show ?thesis using new by simp
    qed
    have "on_ground s1"
      using False v1 h1 s1(2,5,6) inv(1,5) dt len1 last1 hs1 all
      by (simp add: on_ground_def)
    then obtain s' where s': "ascent_loop n S dt s1 = Some (Inr (ABORTED, s'))" "apogee s' = None"
      "st_t s' > 300 \<or> st_h s' < -10" "st_t s' \<le> 300 + dt" "st_h s' < 0"
      "length (st_heights s') = length (st_times s')"
      "last (st_times s') = st_t s'" "last (st_heights s') = st_h s'"
      "\<forall>h \<in> set (st_heights s'). h \<le> 0"
      "\<forall>i. Suc i < length (st_times s') \<longrightarrow> below_bound (st_times s' ! i) (st_heights s' ! i)"
      "length (st_times s') \<le> length (st_times s1) + n"
      using Suc.IH [OF _ far] by blast
    have "length (st_times s') \<le> length (st_times s) + Suc n" using s'(11) s1(6) by simp
    then show ?thesis using eq s' by auto
  qed
qed

text \<open>
  Claim C9, as the code has it. Take a simulator whose thrust is 0 at every time and
  whose mass is defined and not 0 at every time from 0 on, and a positive step \<open>dt\<close>.
  The stepping loop leaves in the state ABORTED, within any number \<open>n\<close> of passes with
  \<open>n * dt > 300\<close>: it stops at the first recorded entry with \<open>t > 300\<close> or
  \<open>h < -10\<close>, at a time of at most one step beyond 300 s, and no recorded height is
  above the ground.
\<close>

theorem zero_thrust_aborts_at_safety_bound:
  assumes "S = RocketSimulator_init tm d c args"
    and "\<forall>t. thrust S t = 0"
    and "\<forall>t\<ge>0. \<exists>m. mass S t = Inr m \<and> m \<noteq> 0"
    and "0 < dt" and "300 < real n * dt"
  shows "\<exists>s. ascent_loop n S dt (initial_state 0) = Some (Inr (ABORTED, s)) \<and>
             (st_t s > 300 \<or> st_h s < -10) \<and> st_t s \<le> 300 + dt \<and>
             length (st_heights s) = length (st_times s) \<and>
             last (st_times s) = st_t s \<and> last (st_heights s) = st_h s \<and>
             (\<forall>h \<in> set (st_heights s). h \<le> 0) \<and>
             (\<forall>i. Suc i < length (st_times s) \<longrightarrow>
                  \<not> (st_times s ! i > 300 \<or> st_heights s ! i < -10)) \<and>
             length (st_times s) \<le> Suc n"
proof -
  have g: "0 < g S" using assms(1) by (simp add: init_g)
  have start: "on_ground (initial_state 0)"
    by (simp add: on_ground_def initial_state_def below_bound_def)
  have far: "300 < st_t (initial_state 0) + real n * dt"
    using assms(5) by (simp add: initial_state_def)
  obtain s where s: "ascent_loop n S dt (initial_state 0) = Some (Inr (ABORTED, s))"
    "st_t s > 300 \<or> st_h s < -10" "st_t s \<le> 300 + dt"
    "length (st_heights s) = length (st_times s)"
    "last (st_times s) = st_t s" "last (st_heights s) = st_h s"
    "\<forall>h \<in> set (st_heights s). h \<le> 0"
    "\<forall>i. Suc i < length (st_times s) \<longrightarrow> below_bound (st_times s ! i) (st_heights s ! i)"
    "length (st_times s) \<le> length (st_times (initial_state 0)) + n"
    using ascent_loop_on_ground [OF assms(2,3) g assms(4) start far] by blast
  have "length (st_times s) \<le> Suc n" using s(9) by (simp add: initial_state_def)
  then show ?thesis using s(1-8) unfolding below_bound_def by blast
qed

theorem zero_thrust_aborts_at_safety_bound_witness:
  "\<exists>s. ascent_loop 301 grounded_rocket 1 (initial_state 0) = Some (Inr (ABORTED, s)) \<and>
       (st_t s > 300 \<or> st_h s < -10) \<and> st_t s \<le> 301 \<and> length (st_times s) \<le> 302"
proof -
  obtain s where "ascent_loop 301 grounded_rocket 1 (initial_state 0) = Some (Inr (ABORTED, s))"
    "st_t s > 300 \<or> st_h s < -10" "st_t s \<le> 300 + 1" "length (st_times s) \<le> Suc 301"
    using zero_thrust_aborts_at_safety_bound
      [OF grounded_rocket_def grounded_thrust grounded_mass, of 1 301]
    by auto
  then show ?thesis by auto
qed

text \<open>The second pass of the rocket that is all propellant divides by its mass, which
  is 0 at the burn time.\<close>

lemma hollow_two_passes:
  "ascent_loop (Suc (Suc n)) hollow_rocket 1 (initial_state 0) = Some (Inl ZeroDivision)"
  by (simp add: hollow_rocket_def thrust_def mass_def step_def initial_state_def Let_def)

theorem zero_thrust_zero_final_mass_counterexample:
  "burn_time hollow_rocket = 1 \<and> engine_mode hollow_rocket = Constant 0 \<and>
   thrust hollow_rocket 0 = 0 \<and> thrust hollow_rocket 1 = 0 \<and>
   mass hollow_rocket 1 = Inr 0 \<and>
   ascent_loop 301 hollow_rocket 1 (initial_state 0) = Some (Inl ZeroDivision)"
  using hollow_two_passes [of 299]
  by (simp add: hollow_rocket_def thrust_def mass_def)

subsection \<open>Leaving the loop by the safety bound\<close>

lemma ascent_loop_aborted_unbound:
  "ascent_loop n S dt s = Some (Inr (ABORTED, s')) \<Longrightarrow> apogee s = None \<Longrightarrow> apogee s' = None"
proof (induction n arbitrary: s)
  case 0
  then show ?case by simp
next
  case (Suc n)
  from Suc.prems(1) obtain s1 where s1: "step S dt s = Inr s1"
    by (auto split: sum.splits)
  have a1: "apogee s1 = None" using step_fields(6) [OF s1] Suc.prems(2) by simp
  show ?case
  proof (cases "st_v s1 \<le> 0 \<and> st_h s1 > 0")
    case True
    then show ?thesis using Suc.prems(1) s1 by simp
  next
    case False
    show ?thesis
    proof (cases "st_t s1 > 300 \<or> st_h s1 < -10")
      case True
      then have "s' = s1" using Suc.prems(1) s1 False by simp
      then show ?thesis using a1 by simp
    next
      case nb: False
      then have "ascent_loop n S dt s1 = Some (Inr (ABORTED, s'))"
        using Suc.prems(1) s1 False by simp
      then show ?thesis using Suc.IH a1 by blast
    qed
  qed
qed

text \<open>Every run that leaves the loop by the safety bound ends in the error of the unbound
  variable: the \<^verbatim>\<open>return\<close> statement reads \<^verbatim>\<open>apogee\<close>.\<close>

lemma aborted_run_raises:
  assumes "ascent_loop n S dt (initial_state (thrust S 0)) = Some (Inr (ABORTED, s))"
  shows "simulate n S dt = Some (Inl (UnboundLocalError ''apogee''))"
proof -
  have "apogee s = None"
    using ascent_loop_aborted_unbound [OF assms] by (simp add: initial_state_def)
  then show ?thesis using assms by (simp add: simulate_def return_results_def)
qed

text \<open>
  Claim C1. The claim asks that a run which leaves the loop by a safety bound, the apogee
  condition never having held, return a result that reports the state ABORTED. In the
  code \<^verbatim>\<open>apogee\<close> and \<^verbatim>\<open>time_to_apogee\<close> are assigned in the apogee branch only, and
  the \<^verbatim>\<open>return\<close> after the loop reads them: the rocket whose motor never pushes, run
  with the default step of 0.001 s, ends in \<^verbatim>\<open>UnboundLocalError\<close>.
\<close>

theorem simulate_aborted_raises_unbound_local:
  "simulate 300001 grounded_rocket 0.001 = Some (Inl (UnboundLocalError ''apogee''))"
proof -
  have "0 < g grounded_rocket" by (simp add: grounded_rocket_def)
  then have "\<exists>s. ascent_loop 300001 grounded_rocket 0.001 (initial_state 0) =
                   Some (Inr (ABORTED, s)) \<and> apogee s = None \<and>
                   st_t s \<le> 300 + 0.001 \<and> st_h s < 0"
    by (intro ascent_loop_zero_thrust [OF grounded_thrust grounded_mass])
       (simp_all add: initial_state_def)
  then obtain s where
    "ascent_loop 300001 grounded_rocket 0.001 (initial_state 0) = Some (Inr (ABORTED, s))"
    by blast
  then show ?thesis
    using grounded_thrust by (intro aborted_run_raises [of _ _ _ s]) simp
qed


end
